theory Spec2Isabelle
  imports Main
begin

unbundle bit_operations_syntax

section \<open>The toolbar icon generator (kernel/gui/generate\_toolbar\_icons.py)\<close>

text \<open>
  The script renders eight icons with the drawing library and prints a C header holding
  one packed pixel array per icon. Python integers are modelled as \<open>int\<close>, strings as
  \<open>string\<close>, exceptions as the left summand of a sum type, and the text printed on the
  standard output as a string that is threaded through the run.
\<close>

subsection \<open>Python values and text formatting\<close>

datatype error = ImportError | ValueError | IndexError | OverflowError | MemoryError | DrawError

definition bind_r :: "error + 'a \<Rightarrow> ('a \<Rightarrow> error + 'b) \<Rightarrow> error + 'b" where
  "bind_r m f = (case m of Inl e \<Rightarrow> Inl e | Inr v \<Rightarrow> f v)"

text \<open>A \<open>for\<close> loop whose body may raise: the first exception ends the loop.\<close>

primrec for_each :: "('a \<Rightarrow> 's \<Rightarrow> error + 's) \<Rightarrow> 'a list \<Rightarrow> 's \<Rightarrow> error + 's" where
  "for_each body [] s = Inr s"
| "for_each body (x # xs) s = bind_r (body x s) (for_each body xs)"

definition newline :: string where
  "newline = [CHR 0x0A]"

text \<open>\<open>sep.join(xs)\<close>\<close>

fun str_join :: "string \<Rightarrow> string list \<Rightarrow> string" where
  "str_join sep [] = []"
| "str_join sep [x] = x"
| "str_join sep (x # y # ys) = x @ sep @ str_join sep (y # ys)"

definition digit_char :: "nat \<Rightarrow> char" where
  "digit_char d = ''0123456789ABCDEF'' ! d"

text \<open>The digits of a number that is not negative, in base 10 and in base 16 (upper case).\<close>

fun dec_digits :: "nat \<Rightarrow> string" where
  "dec_digits n = (if n < 10 then [digit_char n] else dec_digits (n div 10) @ [digit_char (n mod 10)])"

function hex_digits :: "int \<Rightarrow> string" where
  "hex_digits n =
     (if n < 16 then [digit_char (nat n)]
      else hex_digits (n div 16) @ [digit_char (nat (n mod 16))])"
  by pat_completeness auto
termination
  by (relation "measure nat") auto

declare dec_digits.simps [simp del]
declare hex_digits.simps [simp del]

text \<open>\<open>f"{n}"\<close> for an integer \<open>n\<close>\<close>

definition str_int :: "int \<Rightarrow> string" where
  "str_int n = (if n < 0 then CHR ''-'' # dec_digits (nat (- n)) else dec_digits (nat n))"

definition zero_pad :: "nat \<Rightarrow> string \<Rightarrow> string" where
  "zero_pad w s = replicate (w - length s) CHR ''0'' @ s"

text \<open>\<open>f"{n:08X}"\<close>: upper-case hexadecimal, zero-padded to eight characters, the sign
  counting as one of them.\<close>

definition format_08X :: "int \<Rightarrow> string" where
  "format_08X n =
     (if n < 0 then CHR ''-'' # zero_pad 7 (hex_digits (- n))
      else zero_pad 8 (hex_digits n))"

subsection \<open>Pixel packing (image\_to\_c\_array, lines 133--136)\<close>

type_synonym pixel = "int \<times> int \<times> int \<times> int"

text \<open>\<open>pixel = (a << 24) | (r << 16) | (g << 8) | b\<close>\<close>

definition pack_pixel :: "pixel \<Rightarrow> int" where
  "pack_pixel p = (case p of (r, g, b, a) \<Rightarrow>
     ((push_bit 24 a OR push_bit 16 r) OR push_bit 8 g) OR b)"

text \<open>\<open>f"0x{pixel:08X}"\<close>\<close>

definition pixel_literal :: "pixel \<Rightarrow> string" where
  "pixel_literal p = ''0x'' @ format_08X (pack_pixel p)"

text \<open>The inverse of the documented bit layout, as the specification words it: alpha is
  bits 24--31, red bits 16--23, green bits 8--15, blue bits 0--7.\<close>

definition spec_unpack_pixel :: "int \<Rightarrow> pixel" where
  "spec_unpack_pixel v =
     (drop_bit 16 v AND 255, drop_bit 8 v AND 255, v AND 255, drop_bit 24 v AND 255)"

definition channel_ok :: "int \<Rightarrow> bool" where
  "channel_ok c = (0 \<le> c \<and> c \<le> 255)"

definition pixel_ok :: "pixel \<Rightarrow> bool" where
  "pixel_ok p = (case p of (r, g, b, a) \<Rightarrow> channel_ok r \<and> channel_ok g \<and> channel_ok b \<and> channel_ok a)"

subsection \<open>The drawing library\<close>

text \<open>
  The image library (PIL) is not part of the repository. An image is its width, its
  height and its pixels in row-major order, which is what \<open>img.getdata()\<close> returns;
  every image of the script has mode RGBA, where \<open>img.convert('RGBA')\<close> returns a copy.
  What the library decides is a parameter of the model, a record of two functions:
  \<open>refuses\<close> gives the exception that \<open>Image.new\<close> raises for a size that the library
  cannot represent or allocate, or \<open>None\<close> when it returns an image, and \<open>covers\<close> gives, for the arguments of a
  drawing call, the coordinates that a line, an arc, a polygon or a rectangle outline
  covers, or \<open>None\<close> when the call raises. The library refuses a bounding box whose
  right edge lies left of its left edge, or whose lower edge lies above its upper edge,
  with a \<open>ValueError\<close>. Drawing on an RGBA image overwrites the covered pixels that lie
  on the canvas with the fill colour and leaves every other pixel as it was.
\<close>

record pil_image =
  width :: nat
  height :: nat
  data :: "pixel list"

datatype primitive =
    Line "(int \<times> int) list" int
  | Arc "int list" int int int
  | Polygon "(int \<times> int) list"
  | Rectangle "int list" int

type_synonym rasterizer = "primitive \<Rightarrow> (int \<times> int) list option"

record library =
  refuses :: "int \<times> int \<Rightarrow> error option"
  covers :: rasterizer

definition creates :: "library \<Rightarrow> int \<times> int \<Rightarrow> bool" where
  "creates L wh = (refuses L wh = None)"

text \<open>\<open>Image.new('RGBA', size, color)\<close>\<close>

definition Image_new :: "library \<Rightarrow> int \<times> int \<Rightarrow> pixel \<Rightarrow> error + pil_image" where
  "Image_new L wh color = (case wh of (w, h) \<Rightarrow>
     if w < 0 \<or> h < 0 then Inl ValueError
     else case refuses L (w, h) of
            Some e \<Rightarrow> Inl e
          | None \<Rightarrow> Inr \<lparr>width = nat w, height = nat h, data = replicate (nat w * nat h) color\<rparr>)"

definition convert_RGBA :: "pil_image \<Rightarrow> pil_image" where
  "convert_RGBA img = img"

definition getdata :: "pil_image \<Rightarrow> pixel list" where
  "getdata img = data img"

definition put_pixel :: "pixel \<Rightarrow> int \<times> int \<Rightarrow> pil_image \<Rightarrow> pil_image" where
  "put_pixel fill xy img = (case xy of (x, y) \<Rightarrow>
     if 0 \<le> x \<and> x < int (width img) \<and> 0 \<le> y \<and> y < int (height img)
     then img\<lparr>data := (data img)[nat y * width img + nat x := fill]\<rparr>
     else img)"

text \<open>\<open>draw.line(xy, fill, width)\<close>, \<open>draw.arc(xy, start, end, fill, width)\<close>,
  \<open>draw.polygon(xy, fill)\<close> and \<open>draw.rectangle(xy, outline, width)\<close> on the image
  that \<open>ImageDraw.Draw(img)\<close> wraps.\<close>

text \<open>The bounding box \<open>[x0, y0, x1, y1]\<close> of an arc or a rectangle is in order.\<close>

fun box_in_order :: "int list \<Rightarrow> bool" where
  "box_in_order [x0, y0, x1, y1] = (x0 \<le> x1 \<and> y0 \<le> y1)"
| "box_in_order box = False"

fun shape_accepted :: "primitive \<Rightarrow> bool" where
  "shape_accepted (Arc box start stop w) = box_in_order box"
| "shape_accepted (Rectangle box w) = box_in_order box"
| "shape_accepted (Line xy w) = True"
| "shape_accepted (Polygon xy) = True"

definition draw_shape :: "library \<Rightarrow> primitive \<Rightarrow> pixel \<Rightarrow> pil_image \<Rightarrow> error + pil_image" where
  "draw_shape L shape fill img =
     (if \<not> shape_accepted shape then Inl ValueError
      else case covers L shape of
             None \<Rightarrow> Inl DrawError
           | Some ps \<Rightarrow> Inr (fold (put_pixel fill) ps img))"

subsection \<open>The icon renderers (lines 31--120)\<close>

definition render_chevron_left :: "library \<Rightarrow> int \<Rightarrow> error + pil_image" where
  "render_chevron_left R sz =
     bind_r (Image_new R (sz, sz) (0, 0, 0, 0)) (\<lambda>img.
       let cx = sz div 2; cy = sz div 2;
           points = [(cx + 4, cy - 7), (cx - 4, cy), (cx + 4, cy + 7)]
       in draw_shape R (Line points 3) (255, 255, 255, 255) img)"

definition render_chevron_right :: "library \<Rightarrow> int \<Rightarrow> error + pil_image" where
  "render_chevron_right R sz =
     bind_r (Image_new R (sz, sz) (0, 0, 0, 0)) (\<lambda>img.
       let cx = sz div 2; cy = sz div 2;
           points = [(cx - 4, cy - 7), (cx + 4, cy), (cx - 4, cy + 7)]
       in draw_shape R (Line points 3) (255, 255, 255, 255) img)"

definition render_rotate_cw :: "library \<Rightarrow> int \<Rightarrow> error + pil_image" where
  "render_rotate_cw R sz =
     bind_r (Image_new R (sz, sz) (0, 0, 0, 0)) (\<lambda>img.
     bind_r (draw_shape R (Arc [4, 4, sz - 4, sz - 4] 45 315 2) (255, 255, 255, 255) img) (\<lambda>img.
       draw_shape R (Polygon [(sz - 6, 6), (sz - 3, 10), (sz - 10, 8)]) (255, 255, 255, 255) img))"

definition render_rotate_ccw :: "library \<Rightarrow> int \<Rightarrow> error + pil_image" where
  "render_rotate_ccw R sz =
     bind_r (Image_new R (sz, sz) (0, 0, 0, 0)) (\<lambda>img.
     bind_r (draw_shape R (Arc [4, 4, sz - 4, sz - 4] 225 495 2) (255, 255, 255, 255) img) (\<lambda>img.
       draw_shape R (Polygon [(6, 6), (10, 3), (8, 10)]) (255, 255, 255, 255) img))"

definition render_zoom_in :: "library \<Rightarrow> int \<Rightarrow> error + pil_image" where
  "render_zoom_in R sz =
     bind_r (Image_new R (sz, sz) (0, 0, 0, 0)) (\<lambda>img.
       let cx = sz div 2; cy = sz div 2 in
       bind_r (draw_shape R (Line [(cx - 6, cy), (cx + 6, cy)] 3) (255, 255, 255, 255) img) (\<lambda>img.
         draw_shape R (Line [(cx, cy - 6), (cx, cy + 6)] 3) (255, 255, 255, 255) img))"

definition render_zoom_out :: "library \<Rightarrow> int \<Rightarrow> error + pil_image" where
  "render_zoom_out R sz =
     bind_r (Image_new R (sz, sz) (0, 0, 0, 0)) (\<lambda>img.
       let cx = sz div 2; cy = sz div 2 in
       draw_shape R (Line [(cx - 6, cy), (cx + 6, cy)] 3) (255, 255, 255, 255) img)"

definition render_fit :: "library \<Rightarrow> int \<Rightarrow> error + pil_image" where
  "render_fit R sz =
     bind_r (Image_new R (sz, sz) (0, 0, 0, 0)) (\<lambda>img.
     bind_r (draw_shape R (Rectangle [4, 4, sz - 5, sz - 5] 2) (255, 255, 255, 255) img) (\<lambda>img.
     bind_r (draw_shape R (Line [(4, 4), (10, 10)] 2) (255, 255, 255, 255) img) (\<lambda>img.
       draw_shape R (Line [(sz - 5, sz - 5), (sz - 11, sz - 11)] 2) (255, 255, 255, 255) img)))"

definition render_fullscreen :: "library \<Rightarrow> int \<Rightarrow> error + pil_image" where
  "render_fullscreen R sz =
     bind_r (Image_new R (sz, sz) (0, 0, 0, 0)) (\<lambda>img.
     bind_r (draw_shape R (Line [(2, 8), (2, 2), (8, 2)] 2) (255, 255, 255, 255) img) (\<lambda>img.
     bind_r (draw_shape R (Line [(sz - 9, 2), (sz - 3, 2), (sz - 3, 8)] 2) (255, 255, 255, 255) img) (\<lambda>img.
     bind_r (draw_shape R (Line [(2, sz - 9), (2, sz - 3), (8, sz - 3)] 2) (255, 255, 255, 255) img) (\<lambda>img.
       draw_shape R (Line [(sz - 9, sz - 3), (sz - 3, sz - 3), (sz - 3, sz - 9)] 2)
         (255, 255, 255, 255) img))))"

subsection \<open>The array emitter (image\_to\_c\_array, lines 122--140)\<close>

text \<open>\<open>xs[i]\<close> for an index \<open>i\<close> that is not negative\<close>

definition list_index :: "'a list \<Rightarrow> nat \<Rightarrow> error + 'a" where
  "list_index xs i = (if i < length xs then Inr (xs ! i) else Inl IndexError)"

text \<open>The inner loop: the list \<open>row\<close> of one image row.\<close>

definition pixel_row :: "pil_image \<Rightarrow> pixel list \<Rightarrow> nat \<Rightarrow> error + string list" where
  "pixel_row img pixels y =
     for_each (\<lambda>x row.
         bind_r (list_index pixels (y * width img + x)) (\<lambda>p. Inr (row @ [pixel_literal p])))
       [0..<width img] []"

definition image_to_c_array :: "pil_image \<Rightarrow> string \<Rightarrow> error + string" where
  "image_to_c_array img0 name =
     (let img = convert_RGBA img0;
          pixels = getdata img;
          lines = [''/* '' @ name @ '' - '' @ str_int (int (width img)) @ ''x''
                     @ str_int (int (height img)) @ '' RGBA icon */''];
          lines = lines @ [''static const uint32_t '' @ name @ ''[''
                     @ str_int (int (width img * height img)) @ ''] = {'']
      in bind_r
           (for_each (\<lambda>y lines.
                bind_r (pixel_row img pixels y) (\<lambda>row.
                  Inr (lines @ [''    '' @ str_join '', '' row @ '',''])))
              [0..<height img] lines)
           (\<lambda>lines. Inr (str_join newline (lines @ [''};'']))))"

subsection \<open>The module and its entry point (lines 7--29 and 142--197)\<close>

text \<open>The module-level names \<open>ICON_SIZE\<close> and \<open>ICONS\<close>.\<close>

record globals =
  ICON_SIZE :: int
  ICONS :: "(string \<times> string) list"

definition module_globals :: globals where
  "module_globals = \<lparr>ICON_SIZE = 24,
     ICONS = [(''icon_prev'', ''prev.png''), (''icon_next'', ''next.png''),
              (''icon_rotate_cw'', ''rotate_cw.png''), (''icon_rotate_ccw'', ''rotate_ccw.png''),
              (''icon_zoom_in'', ''zoom_in.png''), (''icon_zoom_out'', ''zoom_out.png''),
              (''icon_fit'', ''fit.png''), (''icon_fullscreen'', ''fullscreen.png'')]\<rparr>"

text \<open>\<open>print(s)\<close> appends \<open>s\<close> and a line break to the text written to the standard
  output so far.\<close>

definition py_print :: "string \<Rightarrow> string \<Rightarrow> string" where
  "py_print s out = out @ s @ newline"

text \<open>The list \<open>icons\<close> of \<open>main\<close> (lines 146--155): the elements are evaluated in
  order, and the first renderer that raises ends the construction.\<close>

definition render_icons :: "library \<Rightarrow> int \<Rightarrow> error + (string \<times> pil_image) list" where
  "render_icons R sz =
     bind_r (render_chevron_left R sz) (\<lambda>i0.
     bind_r (render_chevron_right R sz) (\<lambda>i1.
     bind_r (render_rotate_cw R sz) (\<lambda>i2.
     bind_r (render_rotate_ccw R sz) (\<lambda>i3.
     bind_r (render_zoom_in R sz) (\<lambda>i4.
     bind_r (render_zoom_out R sz) (\<lambda>i5.
     bind_r (render_fit R sz) (\<lambda>i6.
     bind_r (render_fullscreen R sz) (\<lambda>i7.
       Inr [(''toolbar_icon_prev'', i0),
            (''toolbar_icon_next'', i1),
            (''toolbar_icon_rotate_cw'', i2),
            (''toolbar_icon_rotate_ccw'', i3),
            (''toolbar_icon_zoom_in'', i4),
            (''toolbar_icon_zoom_out'', i5),
            (''toolbar_icon_fit'', i6),
            (''toolbar_icon_fullscreen'', i7)]))))))))"

text \<open>The list \<open>output\<close> that \<open>main\<close> builds from \<open>size\<close> and \<open>icons\<close>
  (lines 158--192), one \<open>append\<close> after the other.\<close>

definition main_output :: "int \<Rightarrow> (string \<times> pil_image) list \<Rightarrow> error + string list" where
  \<open>main_output sz icons =
     (let output = [];
          output = output @ [''/*''];
          output = output @ ['' * Toolbar Icons for vib-OS Image Viewer''];
          output = output @ ['' * Auto-generated 24x24 RGBA icons''];
          output = output @ ['' */''];
          output = output @ [''''];
          output = output @ [''#ifndef TOOLBAR_ICONS_H''];
          output = output @ [''#define TOOLBAR_ICONS_H''];
          output = output @ [''''];
          output = output @ [''#include "types.h"''];
          output = output @ [''''];
          output = output @ [''#define TOOLBAR_ICON_SIZE '' @ str_int sz];
          output = output @ ['''']
      in bind_r
           (for_each (\<lambda>(name, img) output.
                bind_r (image_to_c_array img name) (\<lambda>text.
                  Inr ((output @ [text]) @ [''''])))
              icons output)
           (\<lambda>output.
              let output = output @ [''/* Icon array for toolbar */''];
                  output = output @ [''static const uint32_t* toolbar_icons[] = {''];
                  output = fold (\<lambda>(name, _) output. output @ [''    '' @ name @ '','']) icons output;
                  output = output @ [''};''];
                  output = output @ [''''];
                  output = output @ [''#define TOOLBAR_ICON_PREV 0''];
                  output = output @ [''#define TOOLBAR_ICON_NEXT 1''];
                  output = output @ [''#define TOOLBAR_ICON_ROTATE_CW 2''];
                  output = output @ [''#define TOOLBAR_ICON_ROTATE_CCW 3''];
                  output = output @ [''#define TOOLBAR_ICON_ZOOM_IN 4''];
                  output = output @ [''#define TOOLBAR_ICON_ZOOM_OUT 5''];
                  output = output @ [''#define TOOLBAR_ICON_FIT 6''];
                  output = output @ [''#define TOOLBAR_ICON_FULLSCREEN 7''];
                  output = output @ [''''];
                  output = output @ [''#endif /* TOOLBAR_ICONS_H */'']
              in Inr output))\<close>

text \<open>The second half of \<open>main\<close> (lines 157--194): the lines are collected, and only then
  the one \<open>print\<close> call writes them. An exception before that leaves the standard output
  as it was.\<close>

definition print_header :: "int \<Rightarrow> (string \<times> pil_image) list \<Rightarrow> string \<Rightarrow> string \<times> (error + unit)" where
  "print_header sz icons out =
     (case main_output sz icons of
        Inl e \<Rightarrow> (out, Inl e)
      | Inr output \<Rightarrow> (py_print (str_join newline output) out, Inr ()))"

text \<open>\<open>main()\<close>: the icons are rendered for the size \<open>ICON_SIZE\<close>, then the header is
  printed.\<close>

definition main :: "globals \<Rightarrow> library \<Rightarrow> string \<Rightarrow> string \<times> (error + unit)" where
  "main g R out =
     (let sz = ICON_SIZE g in
      case render_icons R sz of
        Inl e \<Rightarrow> (out, Inl e)
      | Inr icons \<Rightarrow> print_header sz icons out)"

text \<open>
  What a run finds outside the program: the files on disk, among them the package of the
  drawing library when it is installed; what \<open>pip3 install pillow\<close> does when it is run,
  that is whether it puts the package on disk and which text it writes to the standard
  output; and whether the standard output is a terminal.
\<close>

type_synonym files = "string \<Rightarrow> string option"

record environment =
  files_on_disk :: files
  pip_installs_pil :: bool
  pip_stdout :: string
  stdout_is_terminal :: bool

text \<open>\<open>from PIL import Image\<close> succeeds when the interpreter finds the package on disk.\<close>

definition PIL_package :: string where
  "PIL_package = ''site-packages/PIL/__init__.py''"

definition PIL_importable :: "files \<Rightarrow> bool" where
  "PIL_importable fs = (fs PIL_package \<noteq> None)"

text \<open>\<open>os.system("pip3 install pillow")\<close>: the installer is a child process that writes to
  the standard output it inherits. On a terminal (or when Python runs unbuffered) every
  printed line has been written when \<open>print\<close> returns, so the installer's text comes
  after what the program has printed. On a pipe or a file the printed text is still held
  in Python's buffer, which is written when it is full or when the program ends, so the
  installer's text comes first. The text printed before this call is the notice alone,
  which is shorter than the buffer.\<close>

definition os_system_pip :: "environment \<Rightarrow> files \<times> string \<Rightarrow> files \<times> string" where
  "os_system_pip env st = (case st of (fs, out) \<Rightarrow>
     (if pip_installs_pil env then fs(PIL_package \<mapsto> []) else fs,
      if stdout_is_terminal env then out @ pip_stdout env else pip_stdout env @ out))"

text \<open>The import with its fallback (lines 10--15). The notice is written with \<open>print\<close>,
  so it goes to the standard output.\<close>

definition import_PIL :: "environment \<Rightarrow> files \<times> string \<Rightarrow> (files \<times> string) \<times> (error + unit)" where
  "import_PIL env st = (case st of (fs, out) \<Rightarrow>
     if PIL_importable fs then ((fs, out), Inr ())
     else let out = py_print ''PIL not found. Installing...'' out;
              (fs, out) = os_system_pip env (fs, out)
          in if PIL_importable fs then ((fs, out), Inr ()) else ((fs, out), Inl ImportError))"

text \<open>One run of the script, from an empty standard output: the result is the text that
  has reached the standard output when the run ends, and how the run ended.\<close>

definition script :: "globals \<Rightarrow> environment \<Rightarrow> library \<Rightarrow> string \<times> (error + unit)" where
  "script g env R =
     (case import_PIL env (files_on_disk env, []) of
        ((fs, out), Inl e) \<Rightarrow> (out, Inl e)
      | ((fs, out), Inr _) \<Rightarrow> main g R out)"

section \<open>Notions for stating the properties\<close>

text \<open>An image holds one pixel for every position of its grid.\<close>

definition well_formed :: "pil_image \<Rightarrow> bool" where
  "well_formed img = (length (data img) = width img * height img)"

text \<open>The pixel in column \<open>x\<close> of row \<open>y\<close>.\<close>

definition pixel_at :: "pil_image \<Rightarrow> nat \<Rightarrow> nat \<Rightarrow> pixel" where
  "pixel_at img x y = data img ! (y * width img + x)"

text \<open>The drawing calls of a renderer, one after the other, each in opaque white.\<close>

definition draw_all :: "library \<Rightarrow> primitive list \<Rightarrow> pil_image \<Rightarrow> error + pil_image" where
  "draw_all R shapes img = for_each (\<lambda>s im. draw_shape R s (255, 255, 255, 255) im) shapes img"

text \<open>A drawing call that the library carries out: its box is in order and the
  rasterisation does not raise.\<close>

definition drawable :: "library \<Rightarrow> primitive \<Rightarrow> bool" where
  "drawable L s = (shape_accepted s \<and> covers L s \<noteq> None)"

text \<open>The coordinates that a sequence of drawing calls covers.\<close>

definition covered :: "library \<Rightarrow> primitive list \<Rightarrow> (int \<times> int) list" where
  "covered L shapes =
     concat (map (\<lambda>s. case covers L s of None \<Rightarrow> [] | Some ps \<Rightarrow> ps) shapes)"

text \<open>Every pixel of the image that no drawing call of the sequence covers is transparent
  black, and every other pixel is opaque white.\<close>

definition drawn_on_transparent :: "library \<Rightarrow> primitive list \<Rightarrow> pil_image \<Rightarrow> bool" where
  "drawn_on_transparent R shapes img =
     (\<forall>y < height img. \<forall>x < width img.
        pixel_at img x y =
          (if (int x, int y) \<in> set (covered R shapes) then (255, 255, 255, 255) else (0, 0, 0, 0)))"

text \<open>The catalog: each renderer with the drawing calls it makes, in the order of the
  source (lines 37--39, 47--49, 58--60, 69--71, 79--82, 90--92, 101--104, 113--119).\<close>

definition catalog ::
  "((library \<Rightarrow> int \<Rightarrow> error + pil_image) \<times> (int \<Rightarrow> primitive list)) list" where
  "catalog =
     [(render_chevron_left, \<lambda>sz.
         [Line [(sz div 2 + 4, sz div 2 - 7), (sz div 2 - 4, sz div 2), (sz div 2 + 4, sz div 2 + 7)] 3]),
      (render_chevron_right, \<lambda>sz.
         [Line [(sz div 2 - 4, sz div 2 - 7), (sz div 2 + 4, sz div 2), (sz div 2 - 4, sz div 2 + 7)] 3]),
      (render_rotate_cw, \<lambda>sz.
         [Arc [4, 4, sz - 4, sz - 4] 45 315 2, Polygon [(sz - 6, 6), (sz - 3, 10), (sz - 10, 8)]]),
      (render_rotate_ccw, \<lambda>sz.
         [Arc [4, 4, sz - 4, sz - 4] 225 495 2, Polygon [(6, 6), (10, 3), (8, 10)]]),
      (render_zoom_in, \<lambda>sz.
         [Line [(sz div 2 - 6, sz div 2), (sz div 2 + 6, sz div 2)] 3,
          Line [(sz div 2, sz div 2 - 6), (sz div 2, sz div 2 + 6)] 3]),
      (render_zoom_out, \<lambda>sz.
         [Line [(sz div 2 - 6, sz div 2), (sz div 2 + 6, sz div 2)] 3]),
      (render_fit, \<lambda>sz.
         [Rectangle [4, 4, sz - 5, sz - 5] 2, Line [(4, 4), (10, 10)] 2,
          Line [(sz - 5, sz - 5), (sz - 11, sz - 11)] 2]),
      (render_fullscreen, \<lambda>sz.
         [Line [(2, 8), (2, 2), (8, 2)] 2,
          Line [(sz - 9, 2), (sz - 3, 2), (sz - 3, 8)] 2,
          Line [(2, sz - 9), (2, sz - 3), (8, sz - 3)] 2,
          Line [(sz - 9, sz - 3), (sz - 3, sz - 3), (sz - 3, sz - 9)] 2])]"

text \<open>The values of an image as the emitter groups them: one list of literals per row, the
  rows from top to bottom, each row from left to right.\<close>

definition packed_rows :: "pil_image \<Rightarrow> string list list" where
  "packed_rows img =
     map (\<lambda>y. map pixel_literal (take (width img) (drop (y * width img) (data img))))
       [0..<height img]"

text \<open>The two opening lines of an emitted array: the comment and the declaration.\<close>

definition comment_line :: "pil_image \<Rightarrow> string \<Rightarrow> string" where
  "comment_line img name =
     ''/* '' @ name @ '' - '' @ str_int (int (width img)) @ ''x'' @ str_int (int (height img))
       @ '' RGBA icon */''"

definition declaration_line :: "pil_image \<Rightarrow> string \<Rightarrow> string" where
  "declaration_line img name =
     ''static const uint32_t '' @ name @ ''['' @ str_int (int (width img * height img)) @ ''] = {''"

text \<open>The text of one emitted array, in closed form.\<close>

definition array_text :: "pil_image \<Rightarrow> string \<Rightarrow> string" where
  "array_text img name =
     str_join newline
       ([comment_line img name, declaration_line img name]
        @ map (\<lambda>row. ''    '' @ str_join '', '' row @ '','') (packed_rows img)
        @ [''};''])"

text \<open>The values read back from an output line: the pieces of the line between commas and
  blanks.\<close>

fun split_values :: "string \<Rightarrow> string \<Rightarrow> string list" where
  "split_values cur [] = (if cur = [] then [] else [cur])"
| "split_values cur (c # cs) =
     (if c = CHR '','' \<or> c = CHR '' ''
      then (if cur = [] then split_values [] cs else cur # split_values [] cs)
      else split_values (cur @ [c]) cs)"

definition line_values :: "string \<Rightarrow> string list" where
  "line_values line = split_values [] line"

definition value_text :: "string \<Rightarrow> bool" where
  "value_text s = (s \<noteq> [] \<and> CHR '','' \<notin> set s \<and> CHR '' '' \<notin> set s)"

text \<open>The first position at which a text occurs in another.\<close>

fun find_sub :: "string \<Rightarrow> string \<Rightarrow> nat option" where
  "find_sub sub [] = (if sub = [] then Some 0 else None)"
| "find_sub sub (c # cs) =
     (if take (length sub) (c # cs) = sub then Some 0 else map_option Suc (find_sub sub cs))"

text \<open>The specification's wording of the per-icon text: the array declaration comes first
  and the comment follows it.\<close>

definition spec_declaration_then_comment :: "string \<Rightarrow> bool" where
  "spec_declaration_then_comment text =
     (case (find_sub ''static const uint32_t'' text, find_sub ''/*'' text) of
        (Some i, Some j) \<Rightarrow> i < j
      | _ \<Rightarrow> False)"

text \<open>The name of an icon's index constant: its identifier in upper case.\<close>

definition to_upper :: "char \<Rightarrow> char" where
  "to_upper c =
     (case map_of (zip ''abcdefghijklmnopqrstuvwxyz'' ''ABCDEFGHIJKLMNOPQRSTUVWXYZ'') c of
        Some u \<Rightarrow> u
      | None \<Rightarrow> c)"

definition index_constant :: "string \<Rightarrow> nat \<Rightarrow> string" where
  "index_constant name k = ''#define '' @ map to_upper name @ '' '' @ str_int (int k)"

text \<open>The specification's wording of section (g): one index constant per icon, the icon at
  position \<open>k\<close> with index \<open>k\<close>.\<close>

definition spec_index_constants :: "(string \<times> pil_image) list \<Rightarrow> string list" where
  "spec_index_constants icons = map (\<lambda>k. index_constant (fst (icons ! k)) k) [0..<length icons]"

text \<open>The eight index constants that \<open>main\<close> writes (lines 183--190).\<close>

definition toolbar_index_constants :: "string list" where
  "toolbar_index_constants =
     [''#define TOOLBAR_ICON_PREV 0'', ''#define TOOLBAR_ICON_NEXT 1'',
      ''#define TOOLBAR_ICON_ROTATE_CW 2'', ''#define TOOLBAR_ICON_ROTATE_CCW 3'',
      ''#define TOOLBAR_ICON_ZOOM_IN 4'', ''#define TOOLBAR_ICON_ZOOM_OUT 5'',
      ''#define TOOLBAR_ICON_FIT 6'', ''#define TOOLBAR_ICON_FULLSCREEN 7'']"

text \<open>The layout of the document, sections (a) to (h), for a given section (g).\<close>

definition document_layout :: "int \<Rightarrow> (string \<times> pil_image) list \<Rightarrow> string list \<Rightarrow> string list" where
  \<open>document_layout sz icons index_constants =
     [''/*'', '' * Toolbar Icons for vib-OS Image Viewer'', '' * Auto-generated 24x24 RGBA icons'',
      '' */'', '''']
     @ [''#ifndef TOOLBAR_ICONS_H'', ''#define TOOLBAR_ICONS_H'', '''']
     @ [''#include "types.h"'', '''']
     @ [''#define TOOLBAR_ICON_SIZE '' @ str_int sz, '''']
     @ concat (map (\<lambda>(name, img). [array_text img name, '''']) icons)
     @ [''/* Icon array for toolbar */'', ''static const uint32_t* toolbar_icons[] = {'']
       @ map (\<lambda>(name, img). ''    '' @ name @ '','') icons @ [''};'', '''']
     @ index_constants @ ['''']
     @ [''#endif /* TOOLBAR_ICONS_H */'']\<close>

text \<open>The document as the specification words it, with one index constant per icon.\<close>

definition spec_document :: "int \<Rightarrow> (string \<times> pil_image) list \<Rightarrow> string list" where
  "spec_document sz icons = document_layout sz icons (spec_index_constants icons)"

text \<open>A file whose name ends in \<open>.png\<close>.\<close>

definition png_file :: "string \<Rightarrow> bool" where
  "png_file path = (drop (length path - 4) path = ''.png'')"

text \<open>What the fallback leaves on the standard output: the notice and the installer's
  text, in the order in which they reach it.\<close>

definition fallback_stdout :: "environment \<Rightarrow> string" where
  "fallback_stdout env =
     (if stdout_is_terminal env
      then ''PIL not found. Installing...'' @ newline @ pip_stdout env
      else pip_stdout env @ ''PIL not found. Installing...'' @ newline)"

text \<open>Concrete inputs. A library that creates every image narrower and lower than
  \<open>2^31\<close> pixels whose four bytes per pixel number fewer than \<open>2^31\<close>, and covers two
  pixels of the canvas and one outside it, whatever is drawn; the same library except for
  a drawing call that no renderer makes; a library whose drawing calls all raise; a
  transparent image of one pixel; an environment where the drawing library is installed,
  one where it is not and the installer puts it in place, and one where it is not and no
  installer is found.\<close>

definition size_limit :: "int \<times> int \<Rightarrow> error option" where
  "size_limit wh = (case wh of (w, h) \<Rightarrow>
     if 2 ^ 31 \<le> w \<or> 2 ^ 31 \<le> h then Some OverflowError
     else if 2 ^ 31 \<le> 4 * w * h then Some MemoryError
     else None)"

definition two_dots :: library where
  "two_dots = \<lparr>refuses = size_limit, covers = (\<lambda>shape. Some [(0, 0), (1, 1), (- 1, 7)])\<rparr>"



definition one_pixel :: pil_image where
  "one_pixel = \<lparr>width = 1, height = 1, data = [(0, 0, 0, 0)]\<rparr>"

definition env_with_PIL :: environment where
  "env_with_PIL = \<lparr>files_on_disk = [PIL_package \<mapsto> ''''], pip_installs_pil = True,
     pip_stdout = ''Requirement already satisfied: pillow'' @ newline,
     stdout_is_terminal = False\<rparr>"

definition env_without_PIL :: environment where
  "env_without_PIL = \<lparr>files_on_disk = (\<lambda>path. None), pip_installs_pil = True,
     pip_stdout = ''Collecting pillow'' @ newline @ ''Successfully installed pillow'' @ newline,
     stdout_is_terminal = False\<rparr>"


text \<open>An image of two rows and two columns, and the text emitted for the image of one
  pixel under the name \<open>a\<close>.\<close>

definition two_by_two :: pil_image where
  "two_by_two = \<lparr>width = 2, height = 2,
     data = [(1, 2, 3, 4), (0, 0, 0, 0), (255, 255, 255, 255), (18, 52, 86, 255)]\<rparr>"

definition one_pixel_text :: string where
  "one_pixel_text =
     ''/* a - 1x1 RGBA icon */'' @ newline @ ''static const uint32_t a[1] = {'' @ newline
       @ ''    0x00000000,'' @ newline @ ''};''"

section \<open>Pixel packing\<close>

lemma and_255: "(x::int) AND 255 = take_bit 8 x"
proof -
  have "(255::int) = mask 8" by (simp add: mask_eq_exp_minus_1)
  then show ?thesis by (simp add: take_bit_eq_mask)
qed

lemma channel_below: "channel_ok c \<Longrightarrow> 8 \<le> n \<Longrightarrow> c < 2 ^ n"
proof -
  assume c: "channel_ok c" and n: "8 \<le> n"
  have "(2::int) ^ 8 \<le> 2 ^ n" using n by (rule power_increasing) simp
  then show ?thesis using c by (simp add: channel_ok_def)
qed

lemma channel_take_bit: "channel_ok c \<Longrightarrow> 8 \<le> n \<Longrightarrow> take_bit n c = c"
  using channel_below [of c n] by (simp add: channel_ok_def take_bit_int_eq_self)

lemma channel_drop_bit: "channel_ok c \<Longrightarrow> 8 \<le> n \<Longrightarrow> drop_bit n c = 0"
  using channel_below [of c n] by (simp add: channel_ok_def drop_bit_eq_div)

lemma unpack_pack:
  assumes "channel_ok r" "channel_ok g" "channel_ok b" "channel_ok a"
  shows "spec_unpack_pixel (pack_pixel (r, g, b, a)) = (r, g, b, a)"
  using assms
  by (simp add: spec_unpack_pixel_def pack_pixel_def and_255 drop_bit_push_bit_int
      take_bit_push_bit channel_take_bit channel_drop_bit)

lemma pack_range:
  assumes "channel_ok r" "channel_ok g" "channel_ok b" "channel_ok a"
  shows "0 \<le> pack_pixel (r, g, b, a) \<and> pack_pixel (r, g, b, a) < 2 ^ 32"
proof -
  have "take_bit 32 (pack_pixel (r, g, b, a)) = pack_pixel (r, g, b, a)"
    using assms by (simp add: pack_pixel_def take_bit_push_bit channel_take_bit)
  then show ?thesis by (simp only: take_bit_int_eq_self_iff)
qed

lemma or_channel: "channel_ok c \<Longrightarrow> push_bit 8 x OR c = x * 256 + c"
proof -
  assume c: "channel_ok c"
  have "push_bit 8 x AND take_bit 8 c = 0"
    by (simp add: bit_eq_iff bit_and_iff bit_push_bit_iff bit_take_bit_iff)
  then have "push_bit 8 x AND c = 0"
    using c by (simp add: channel_take_bit)
  then have "push_bit 8 x + c = push_bit 8 x OR c"
    by (rule disjunctive_add_eq_or)
  then show ?thesis by (simp add: push_bit_eq_mult)
qed

lemma pack_sum:
  assumes "channel_ok r" "channel_ok g" "channel_ok b" "channel_ok a"
  shows "pack_pixel (r, g, b, a) = a * 2 ^ 24 + r * 2 ^ 16 + g * 2 ^ 8 + b"
proof -
  have "push_bit 24 a OR push_bit 16 r = push_bit 16 (push_bit 8 a OR r)"
    by (simp add: push_bit_or push_bit_push_bit)
  then have "(push_bit 24 a OR push_bit 16 r) OR push_bit 8 g
      = push_bit 8 (push_bit 8 (push_bit 8 a OR r) OR g)"
    by (simp add: push_bit_or push_bit_push_bit)
  then have "pack_pixel (r, g, b, a) = push_bit 8 (push_bit 8 (push_bit 8 a OR r) OR g) OR b"
    by (simp add: pack_pixel_def)
  then show ?thesis
    using assms by (simp add: or_channel)
qed

lemma length_hex_digits: "n < 16 ^ k \<Longrightarrow> 0 < k \<Longrightarrow> length (hex_digits n) \<le> k"
proof (induction n arbitrary: k rule: hex_digits.induct)
  case (1 n)
  show ?case
  proof (cases "n < 16")
    case True
    then show ?thesis using "1.prems" by (subst hex_digits.simps) simp
  next
    case False
    obtain j where k: "k = Suc j" using "1.prems" by (cases k) auto
    have "n < 16 * 16 ^ j" using "1.prems" k by simp
    then have "n div 16 < 16 ^ j" by linarith
    moreover have "0 < j" using False "1.prems" k by (cases j) auto
    ultimately have "length (hex_digits (n div 16)) \<le> j"
      using False by (intro "1.IH") simp_all
    then show ?thesis using False k by (subst hex_digits.simps) simp
  qed
qed

lemma length_pixel_literal:
  assumes "0 \<le> pack_pixel p" "pack_pixel p < 2 ^ 32"
  shows "length (pixel_literal p) = 10"
proof -
  have "pack_pixel p < 16 ^ 8" using assms by simp
  then have "length (hex_digits (pack_pixel p)) \<le> 8" by (rule length_hex_digits) simp
  then show ?thesis using assms by (simp add: pixel_literal_def format_08X_def zero_pad_def)
qed

text \<open>
  C1. For every RGBA quadruple with each channel in \<open>[0, 255]\<close>, the emitter packs it into
  \<open>(a << 24) | (r << 16) | (g << 8) | b\<close>, a 32-bit unsigned integer, and unpacking that
  value by the inverse bit layout (alpha bits 24--31, red bits 16--23, green bits 8--15,
  blue bits 0--7) gives back \<open>(r, g, b, a)\<close>. The value is written as \<open>0x\<close> and eight
  hexadecimal digits.
\<close>

theorem pack_pixel_roundtrip:
  assumes "pixel_ok (r, g, b, a)"
  shows "pack_pixel (r, g, b, a) = ((push_bit 24 a OR push_bit 16 r) OR push_bit 8 g) OR b
    \<and> pack_pixel (r, g, b, a) = a * 2 ^ 24 + r * 2 ^ 16 + g * 2 ^ 8 + b
    \<and> 0 \<le> pack_pixel (r, g, b, a) \<and> pack_pixel (r, g, b, a) < 2 ^ 32
    \<and> spec_unpack_pixel (pack_pixel (r, g, b, a)) = (r, g, b, a)
    \<and> length (pixel_literal (r, g, b, a)) = 10"
proof -
  have ch: "channel_ok r" "channel_ok g" "channel_ok b" "channel_ok a"
    using assms by (simp_all add: pixel_ok_def)
  have "pack_pixel (r, g, b, a) = ((push_bit 24 a OR push_bit 16 r) OR push_bit 8 g) OR b"
    by (simp add: pack_pixel_def)
  then show ?thesis
    using pack_range [OF ch] unpack_pack [OF ch] pack_sum [OF ch]
      length_pixel_literal [of "(r, g, b, a)"]
    by simp
qed

theorem pack_pixel_roundtrip_witness:
  "pixel_ok (18, 52, 86, 255)
   \<and> pack_pixel (18, 52, 86, 255) = 4279383126
   \<and> spec_unpack_pixel (pack_pixel (18, 52, 86, 255)) = (18, 52, 86, 255)
   \<and> pixel_literal (18, 52, 86, 255) = ''0xFF123456''"
proof -
  have ok: "pixel_ok (18, 52, 86, 255)"
    by (simp add: pixel_ok_def channel_ok_def)
  have v: "pack_pixel (18, 52, 86, 255) = 4279383126"
    by (simp add: pack_pixel_def)
  have lit: "pixel_literal (18, 52, 86, 255) = ''0xFF123456''"
    by (simp add: pixel_literal_def v format_08X_def zero_pad_def hex_digits.simps digit_char_def)
  have rt: "spec_unpack_pixel (pack_pixel (18, 52, 86, 255)) = (18, 52, 86, 255)"
    using pack_pixel_roundtrip [OF ok] by blast
  show ?thesis
    using ok v lit rt by (intro conjI)
qed

section \<open>Loops and results\<close>

lemma bind_r_Inr [simp]: "bind_r (Inr v) f = f v"
  by (simp add: bind_r_def)

lemma bind_r_Inl [simp]: "bind_r (Inl e) f = Inl e"
  by (simp add: bind_r_def)

lemma bind_r_eq_Inr: "bind_r m f = Inr y \<longleftrightarrow> (\<exists>v. m = Inr v \<and> f v = Inr y)"
  by (cases m) simp_all

lemma for_each_total:
  "(\<And>x s. x \<in> set xs \<Longrightarrow> body x s = Inr (step x s)) \<Longrightarrow> for_each body xs s = Inr (fold step xs s)"
  by (induction xs arbitrary: s) simp_all

lemma fold_snoc_map: "fold (\<lambda>x acc. acc @ [f x]) xs acc = acc @ map f xs"
  by (induction xs arbitrary: acc) simp_all

lemma fold_append_map: "fold (\<lambda>x acc. acc @ f x) xs acc = acc @ concat (map f xs)"
  by (induction xs arbitrary: acc) simp_all

section \<open>The array emitter\<close>

lemma row_index_in_range:
  assumes "x < w" "y < h"
  shows "y * w + x < w * (h::nat)"
proof -
  have "y * w + x < y * w + w" using assms(1) by simp
  also have "\<dots> = Suc y * w" by simp
  also have "\<dots> \<le> h * w" using assms(2) by (intro mult_le_mono1) simp
  finally show ?thesis by (simp add: mult.commute)
qed

lemma row_slice:
  assumes "y * w + w \<le> length xs"
  shows "map (\<lambda>x. xs ! (y * w + x)) [0..<w] = take w (drop (y * w) xs)"
  using assms by (intro nth_equalityI) simp_all

lemma pixel_row_closed:
  assumes wf: "well_formed img" and y: "y < height img"
  shows "pixel_row img (data img) y
    = Inr (map pixel_literal (take (width img) (drop (y * width img) (data img))))"
proof -
  let ?w = "width img"
  let ?f = "\<lambda>x. pixel_literal (data img ! (y * ?w + x))"
  have body: "\<And>x row. x \<in> set [0..<?w] \<Longrightarrow>
      bind_r (list_index (data img) (y * ?w + x)) (\<lambda>p. Inr (row @ [pixel_literal p]))
        = Inr (row @ [?f x])"
    using wf y by (simp add: list_index_def well_formed_def row_index_in_range)
  have "pixel_row img (data img) y = Inr (fold (\<lambda>x row. row @ [?f x]) [0..<?w] [])"
    unfolding pixel_row_def by (rule for_each_total) (rule body)
  also have "fold (\<lambda>x row. row @ [?f x]) [0..<?w] [] = map ?f [0..<?w]"
    by (simp add: fold_snoc_map)
  also have "map ?f [0..<?w] = map pixel_literal (map (\<lambda>x. data img ! (y * ?w + x)) [0..<?w])"
    by simp
  also have "map (\<lambda>x. data img ! (y * ?w + x)) [0..<?w] = take ?w (drop (y * ?w) (data img))"
  proof (rule row_slice)
    have "Suc y * ?w \<le> height img * ?w" using y by (intro mult_le_mono1) simp
    then show "y * ?w + ?w \<le> length (data img)"
      using wf by (simp add: well_formed_def mult.commute)
  qed
  finally show ?thesis .
qed

lemma image_to_c_array_closed:
  assumes wf: "well_formed img"
  shows "image_to_c_array img name = Inr (array_text img name)"
proof -
  let ?line = "\<lambda>row. ''    '' @ str_join '', '' row @ '',''"
  let ?row = "\<lambda>y. map pixel_literal (take (width img) (drop (y * width img) (data img)))"
  have body: "\<And>y lines. y \<in> set [0..<height img] \<Longrightarrow>
      bind_r (pixel_row img (data img) y) (\<lambda>row. Inr (lines @ [?line row]))
        = Inr (lines @ [?line (?row y)])"
    using wf by (simp add: pixel_row_closed)
  have loop: "for_each (\<lambda>y lines. bind_r (pixel_row img (data img) y) (\<lambda>row. Inr (lines @ [?line row])))
        [0..<height img] [comment_line img name, declaration_line img name]
      = Inr (fold (\<lambda>y lines. lines @ [?line (?row y)]) [0..<height img]
          [comment_line img name, declaration_line img name])"
    by (rule for_each_total) (rule body)
  have "image_to_c_array img name
      = bind_r (for_each (\<lambda>y lines. bind_r (pixel_row img (data img) y) (\<lambda>row. Inr (lines @ [?line row])))
          [0..<height img] [comment_line img name, declaration_line img name])
          (\<lambda>lines. Inr (str_join newline (lines @ [''};''])))"
    by (simp add: image_to_c_array_def convert_RGBA_def getdata_def Let_def comment_line_def
        declaration_line_def)
  also have "\<dots> = Inr (str_join newline
      (fold (\<lambda>y lines. lines @ [?line (?row y)]) [0..<height img]
          [comment_line img name, declaration_line img name] @ [''};'']))"
    by (simp only: loop bind_r_Inr)
  also have "\<dots> = Inr (array_text img name)"
    by (simp only: fold_snoc_map array_text_def packed_rows_def map_map comp_def append_assoc)
  finally show ?thesis .
qed

lemma concat_row_slices:
  "concat (map (\<lambda>y. take w (drop (y * w) xs)) [0..<h]) = take (h * w) xs"
proof (induction h)
  case 0
  then show ?case by simp
next
  case (Suc h)
  have "take (Suc h * w) xs = take (h * w + w) xs" by (simp add: add.commute)
  also have "\<dots> = take (h * w) xs @ take w (drop (h * w) xs)" by (rule take_add)
  finally show ?case using Suc by simp
qed

lemma concat_packed_rows:
  assumes "well_formed img"
  shows "concat (packed_rows img) = map pixel_literal (data img)"
proof -
  have "concat (packed_rows img)
      = map pixel_literal (concat (map (\<lambda>y. take (width img) (drop (y * width img) (data img))) [0..<height img]))"
    by (simp add: packed_rows_def map_concat comp_def)
  also have "\<dots> = map pixel_literal (take (height img * width img) (data img))"
    by (simp only: concat_row_slices)
  finally show ?thesis using assms by (simp add: well_formed_def mult.commute)
qed

lemma replicate_num: "replicate (numeral n) x = x # replicate (pred_numeral n) x"
  by (simp add: numeral_eq_Suc)

lemma str_join_Cons: "ys \<noteq> [] \<Longrightarrow> str_join sep (x # ys) = x @ sep @ str_join sep ys"
  by (cases ys) simp_all

lemma length_packed_rows: "length (packed_rows img) = height img"
  by (simp add: packed_rows_def)

lemma packed_rows_nth: "y < height img \<Longrightarrow>
    packed_rows img ! y = map pixel_literal (take (width img) (drop (y * width img) (data img)))"
  by (simp add: packed_rows_def)

lemma length_packed_row:
  assumes wf: "well_formed img" and row: "row \<in> set (packed_rows img)"
  shows "length row = width img"
proof -
  obtain y where y: "y < height img"
    and r: "row = map pixel_literal (take (width img) (drop (y * width img) (data img)))"
    using row by (auto simp: packed_rows_def)
  have "Suc y * width img \<le> height img * width img" using y by (intro mult_le_mono1) simp
  then have "y * width img + width img \<le> length (data img)"
    using wf by (simp add: well_formed_def mult.commute)
  then show ?thesis using r by simp
qed

lemma split_values_token:
  "CHR '','' \<notin> set tok \<Longrightarrow> CHR '' '' \<notin> set tok
    \<Longrightarrow> split_values cur (tok @ rest) = split_values (cur @ tok) rest"
  by (induction tok arbitrary: cur) auto

lemma split_values_row:
  assumes "\<forall>v \<in> set row. value_text v"
  shows "split_values [] (str_join '', '' row @ '','') = row"
  using assms
proof (induction row rule: induct_list012)
  case 1
  then show ?case by simp
next
  case (2 x)
  then have "value_text x" by simp
  then show ?case using split_values_token [of x "[]" "'',''"] by (simp add: value_text_def)
next
  case (3 x y ys)
  then have x: "value_text x" and rest: "\<forall>v \<in> set (y # ys). value_text v" by simp_all
  have "split_values [] (x @ '', '' @ str_join '', '' (y # ys) @ '','')
      = split_values x ('', '' @ str_join '', '' (y # ys) @ '','')"
    using x split_values_token [of x "[]"] by (simp add: value_text_def)
  also have "\<dots> = x # split_values [] (str_join '', '' (y # ys) @ '','')"
    using x by (simp add: value_text_def)
  also have "\<dots> = x # y # ys" using "3.IH"(2) rest by simp
  finally show ?case by simp
qed

lemma digit_char_ok: "d < 16 \<Longrightarrow> digit_char d \<in> set ''0123456789ABCDEF''"
  unfolding digit_char_def by (rule nth_mem) simp

lemma hex_digits_chars: "set (hex_digits n) \<subseteq> set ''0123456789ABCDEF''"
proof (induction n rule: hex_digits.induct)
  case (1 n)
  show ?case
  proof (cases "n < 16")
    case True
    then have "nat n < 16" by simp
    then show ?thesis using True digit_char_ok [of "nat n"] by (subst hex_digits.simps) simp
  next
    case False
    have "nat (n mod 16) < 16" by simp
    then have "digit_char (nat (n mod 16)) \<in> set ''0123456789ABCDEF''" by (rule digit_char_ok)
    then show ?thesis using False 1 by (subst hex_digits.simps) simp
  qed
qed

lemma pixel_literal_value: "value_text (pixel_literal p)"
  using hex_digits_chars [of "pack_pixel p"] hex_digits_chars [of "- pack_pixel p"]
  by (auto simp: value_text_def pixel_literal_def format_08X_def zero_pad_def)

lemma line_values_row:
  assumes "row \<in> set (packed_rows img)"
  shows "line_values (''    '' @ str_join '', '' row @ '','') = row"
proof -
  have "\<forall>v \<in> set row. value_text v"
    using assms by (auto simp: packed_rows_def pixel_literal_value)
  then have "split_values [] (str_join '', '' row @ '','') = row"
    by (rule split_values_row)
  then show ?thesis by (simp add: line_values_def)
qed

lemma line_values_rows:
  "map (\<lambda>row. line_values (''    '' @ str_join '', '' row @ '','')) (packed_rows img)
    = packed_rows img"
  by (rule map_idI) (rule line_values_row)

text \<open>
  C4. For every pixel surface, the packed values emitted for it are the surface's pixels in
  row-major storage order, one value per pixel: the emitter writes one line per row, row
  \<open>y\<close> holding the values of the pixels \<open>y * width, ..., y * width + width - 1\<close>, and the
  rows put one after the other are the whole pixel sequence, nothing reordered, dropped
  or repeated. Reading the values back from the emitted lines gives the same sequence.
\<close>

theorem emitted_values_row_major:
  assumes "well_formed img"
  shows "image_to_c_array img name = Inr (array_text img name)
    \<and> (\<forall>y < height img. pixel_row img (getdata img) y = Inr (packed_rows img ! y))
    \<and> length (packed_rows img) = height img
    \<and> (\<forall>row \<in> set (packed_rows img). length row = width img)
    \<and> concat (packed_rows img) = map pixel_literal (data img)
    \<and> concat (map (\<lambda>row. line_values (''    '' @ str_join '', '' row @ '','')) (packed_rows img))
        = map pixel_literal (data img)"
  using assms
  by (simp only: line_values_rows)
    (simp add: image_to_c_array_closed getdata_def pixel_row_closed packed_rows_nth
      length_packed_rows length_packed_row concat_packed_rows)

theorem emitted_values_row_major_witness:
  "well_formed two_by_two
   \<and> image_to_c_array two_by_two ''t'' = Inr (array_text two_by_two ''t'')
   \<and> packed_rows two_by_two = [[''0x04010203'', ''0x00000000''], [''0xFFFFFFFF'', ''0xFF123456'']]
   \<and> concat (packed_rows two_by_two) = map pixel_literal (data two_by_two)
   \<and> line_values ''    0x04010203, 0x00000000,'' = [''0x04010203'', ''0x00000000'']"
proof -
  have wf: "well_formed two_by_two"
    by (simp add: well_formed_def two_by_two_def)
  have rows: "packed_rows two_by_two
      = [[''0x04010203'', ''0x00000000''], [''0xFFFFFFFF'', ''0xFF123456'']]"
    by (simp add: packed_rows_def two_by_two_def upt_rec pixel_literal_def pack_pixel_def
        format_08X_def zero_pad_def replicate_num hex_digits.simps digit_char_def)
  have vals: "line_values ''    0x04010203, 0x00000000,'' = [''0x04010203'', ''0x00000000'']"
    by (simp add: line_values_def)
  show ?thesis
    using wf rows vals emitted_values_row_major [OF wf, of "''t''"] by (intro conjI) simp_all
qed

text \<open>
  C5, as the specification states it, fails: the comment with the icon's name and
  dimensions is the first line of the emitted text and the declaration the second; no
  comment follows the declaration.
\<close>

theorem comment_after_declaration_counterexample:
  "image_to_c_array one_pixel ''a'' = Inr one_pixel_text
   \<and> find_sub ''/*'' one_pixel_text = Some 0
   \<and> find_sub ''static const uint32_t'' one_pixel_text = Some 24
   \<and> \<not> spec_declaration_then_comment one_pixel_text"
proof -
  have wf: "well_formed one_pixel"
    by (simp add: well_formed_def one_pixel_def)
  have "array_text one_pixel ''a'' = one_pixel_text"
    by (simp add: array_text_def comment_line_def declaration_line_def packed_rows_def
        one_pixel_def one_pixel_text_def str_int_def dec_digits.simps digit_char_def
        pixel_literal_def pack_pixel_def format_08X_def zero_pad_def replicate_num hex_digits.simps)
  then have t: "image_to_c_array one_pixel ''a'' = Inr one_pixel_text"
    using image_to_c_array_closed [OF wf, of "''a''"] by simp
  have c: "find_sub ''/*'' one_pixel_text = Some 0"
    by (simp add: one_pixel_text_def)
  have d: "find_sub ''static const uint32_t'' one_pixel_text = Some 24"
    by (simp add: one_pixel_text_def newline_def)
  show ?thesis
    using t c d by (simp add: spec_declaration_then_comment_def)
qed

text \<open>
  C5, amended. For every icon, the per-icon emission produces a comment line stating the
  icon's name and dimensions, then the declaration of a fixed-length array of 32-bit
  unsigned integers named after the icon's identifier with an explicit element count equal
  to width times height (size squared for a square surface), then one line per row and the
  closing line.
\<close>

theorem array_declaration_layout:
  assumes "well_formed img"
  shows "image_to_c_array img name =
    Inr (''/* '' @ name @ '' - '' @ str_int (int (width img)) @ ''x'' @ str_int (int (height img))
           @ '' RGBA icon */'' @ newline
         @ ''static const uint32_t '' @ name @ ''['' @ str_int (int (width img * height img))
           @ ''] = {'' @ newline
         @ str_join newline
             (map (\<lambda>row. ''    '' @ str_join '', '' row @ '','') (packed_rows img) @ [''};'']))"
proof -
  let ?rows = "map (\<lambda>row. ''    '' @ str_join '', '' row @ '','') (packed_rows img) @ [''};'']"
  have "array_text img name
      = comment_line img name @ newline @ declaration_line img name @ newline @ str_join newline ?rows"
    by (simp add: array_text_def str_join_Cons)
  then show ?thesis
    using image_to_c_array_closed [OF assms, of name]
    by (simp add: comment_line_def declaration_line_def)
qed

theorem array_declaration_layout_witness:
  "well_formed one_pixel
   \<and> image_to_c_array one_pixel ''a'' =
       Inr (''/* a - 1x1 RGBA icon */'' @ newline @ ''static const uint32_t a[1] = {'' @ newline
            @ ''    0x00000000,'' @ newline @ ''};'')"
proof -
  have wf: "well_formed one_pixel"
    by (simp add: well_formed_def one_pixel_def)
  show ?thesis
    using wf array_declaration_layout [OF wf, of "''a''"]
    by (simp add: packed_rows_def one_pixel_def str_int_def dec_digits.simps digit_char_def
        pixel_literal_def pack_pixel_def format_08X_def zero_pad_def replicate_num hex_digits.simps)
qed

section \<open>The drawing library and the renderers\<close>

lemma cell_index_eq:
  assumes "x < w" "x' < w"
  shows "y * w + x = y' * w + x' \<longleftrightarrow> x = x' \<and> y = (y'::nat)"
proof
  assume eq: "y * w + x = y' * w + x'"
  have "(y * w + x) mod w = x" "(y' * w + x') mod w = x'"
    using assms by simp_all
  then have x: "x = x'" using eq by simp
  have "(y * w + x) div w = y" "(y' * w + x') div w = y'"
    using assms by simp_all
  then have "y = y'" using eq by simp
  then show "x = x' \<and> y = y'" using x by simp
next
  assume "x = x' \<and> y = y'"
  then show "y * w + x = y' * w + x'" by simp
qed

lemma put_pixel_size [simp]:
  "width (put_pixel c p img) = width img" "height (put_pixel c p img) = height img"
  by (simp_all add: put_pixel_def split: prod.splits)

lemma put_pixel_well_formed [simp]: "well_formed (put_pixel c p img) = well_formed img"
  by (simp add: put_pixel_def well_formed_def split: prod.splits)

lemma put_pixel_ok:
  "pixel_ok c \<Longrightarrow> list_all pixel_ok (data img) \<Longrightarrow> list_all pixel_ok (data (put_pixel c p img))"
proof -
  assume c: "pixel_ok c" and d: "list_all pixel_ok (data img)"
  have "\<And>i. set ((data img)[i := c]) \<subseteq> insert c (set (data img))"
    by (rule set_update_subset_insert)
  then have "\<And>i. list_all pixel_ok ((data img)[i := c])"
    using c d by (auto simp: list_all_iff)
  then show ?thesis
    using d by (simp add: put_pixel_def split: prod.splits)
qed

lemma put_pixel_at:
  assumes wf: "well_formed img" and x: "x < width img" and y: "y < height img"
  shows "pixel_at (put_pixel c p img) x y = (if p = (int x, int y) then c else pixel_at img x y)"
proof (cases p)
  case (Pair px py)
  show ?thesis
  proof (cases "0 \<le> px \<and> px < int (width img) \<and> 0 \<le> py \<and> py < int (height img)")
    case True
    then have px: "nat px < width img" and py: "nat py < height img" by auto
    have len: "y * width img + x < length (data img)"
      using wf x y by (simp add: well_formed_def row_index_in_range)
    have "nat py * width img + nat px = y * width img + x \<longleftrightarrow> nat px = x \<and> nat py = y"
      using px x by (rule cell_index_eq)
    also have "\<dots> \<longleftrightarrow> p = (int x, int y)"
      using True Pair by auto
    finally show ?thesis
      using True Pair len by (simp add: put_pixel_def pixel_at_def nth_list_update)
  next
    case False
    then have ne: "p \<noteq> (int x, int y)" using Pair x y by auto
    have "put_pixel c p img = img" using False Pair by (auto simp: put_pixel_def)
    then show ?thesis using ne by simp
  qed
qed

lemma fold_put_pixel_size [simp]:
  "width (fold (put_pixel c) ps img) = width img"
  "height (fold (put_pixel c) ps img) = height img"
  by (induction ps arbitrary: img) simp_all

lemma fold_put_pixel_well_formed [simp]:
  "well_formed (fold (put_pixel c) ps img) = well_formed img"
  by (induction ps arbitrary: img) simp_all

lemma fold_put_pixel_ok:
  "pixel_ok c \<Longrightarrow> list_all pixel_ok (data img)
    \<Longrightarrow> list_all pixel_ok (data (fold (put_pixel c) ps img))"
  by (induction ps arbitrary: img) (simp_all add: put_pixel_ok)

lemma fold_put_pixel_at:
  assumes "well_formed img" "x < width img" "y < height img"
  shows "pixel_at (fold (put_pixel c) ps img) x y
    = (if (int x, int y) \<in> set ps then c else pixel_at img x y)"
  using assms
proof (induction ps arbitrary: img)
  case Nil
  then show ?case by simp
next
  case (Cons p ps)
  have "pixel_at (fold (put_pixel c) ps (put_pixel c p img)) x y
      = (if (int x, int y) \<in> set ps then c else pixel_at (put_pixel c p img) x y)"
    using Cons.prems by (intro Cons.IH) simp_all
  then show ?case using Cons.prems by (auto simp: put_pixel_at)
qed

lemma white_ok: "pixel_ok (255, 255, 255, 255)"
  by (simp add: pixel_ok_def channel_ok_def)

lemma draw_all_Nil [simp]: "draw_all R [] img = Inr img"
  by (simp add: draw_all_def)

lemma draw_all_Cons:
  "draw_all R (s # shapes) img = bind_r (draw_shape R s (255, 255, 255, 255) img) (draw_all R shapes)"
  by (simp add: draw_all_def fun_eq_iff bind_r_def split: sum.splits)

lemma draw_all_total:
  "\<forall>s \<in> set shapes. drawable R s \<Longrightarrow> \<exists>img'. draw_all R shapes img = Inr img'"
proof (induction shapes arbitrary: img)
  case Nil
  then show ?case by simp
next
  case (Cons s shapes)
  then obtain ps where "covers R s = Some ps" "shape_accepted s"
    by (auto simp: drawable_def)
  then show ?case using Cons by (simp add: draw_all_Cons draw_shape_def)
qed

lemma draw_all_drawable:
  "draw_all R shapes img = Inr img' \<Longrightarrow> \<forall>s \<in> set shapes. drawable R s"
proof (induction shapes arbitrary: img)
  case Nil
  then show ?case by simp
next
  case (Cons s shapes)
  from Cons.prems obtain mid where s: "draw_shape R s (255, 255, 255, 255) img = Inr mid"
    and rest: "draw_all R shapes mid = Inr img'"
    by (auto simp: draw_all_Cons bind_r_eq_Inr)
  have "drawable R s"
    using s by (auto simp: draw_shape_def drawable_def split: if_splits option.splits)
  then show ?case using Cons.IH [OF rest] by simp
qed

lemma draw_all_result:
  assumes "draw_all R shapes img = Inr img'" "well_formed img" "list_all pixel_ok (data img)"
  shows "width img' = width img \<and> height img' = height img \<and> well_formed img'
    \<and> list_all pixel_ok (data img')
    \<and> (\<forall>y < height img. \<forall>x < width img. pixel_at img' x y
          = (if (int x, int y) \<in> set (covered R shapes) then (255, 255, 255, 255)
             else pixel_at img x y))"
  using assms
proof (induction shapes arbitrary: img)
  case Nil
  then show ?case by (simp add: covered_def)
next
  case (Cons s shapes)
  from Cons.prems(1) obtain ps where ps: "covers R s = Some ps"
    and rest: "draw_all R shapes (fold (put_pixel (255, 255, 255, 255)) ps img) = Inr img'"
    by (auto simp: draw_all_Cons draw_shape_def bind_r_eq_Inr split: if_splits option.splits)
  let ?mid = "fold (put_pixel (255, 255, 255, 255)) ps img"
  have mid: "well_formed ?mid" "list_all pixel_ok (data ?mid)"
    using Cons.prems by (simp_all add: fold_put_pixel_ok white_ok)
  have IH: "width img' = width ?mid \<and> height img' = height ?mid \<and> well_formed img'
    \<and> list_all pixel_ok (data img')
    \<and> (\<forall>y < height ?mid. \<forall>x < width ?mid. pixel_at img' x y
          = (if (int x, int y) \<in> set (covered R shapes) then (255, 255, 255, 255)
             else pixel_at ?mid x y))"
    using rest mid by (rule Cons.IH)
  have cov: "set (covered R (s # shapes)) = set ps \<union> set (covered R shapes)"
    using ps by (simp add: covered_def)
  show ?case
    using IH Cons.prems(2) by (auto simp: cov fold_put_pixel_at)
qed

lemma Image_new_blank:
  assumes "Image_new R (sz, sz) (0, 0, 0, 0) = Inr img"
  shows "width img = nat sz \<and> height img = nat sz \<and> well_formed img
    \<and> list_all pixel_ok (data img)
    \<and> (\<forall>y < height img. \<forall>x < width img. pixel_at img x y = (0, 0, 0, 0))"
proof -
  have img: "img = \<lparr>width = nat sz, height = nat sz, data = replicate (nat sz * nat sz) (0, 0, 0, 0)\<rparr>"
    using assms by (simp add: Image_new_def split: if_splits option.splits)
  have "\<And>x y. x < nat sz \<Longrightarrow> y < nat sz \<Longrightarrow> y * nat sz + x < nat sz * nat sz"
    by (rule row_index_in_range)
  then show ?thesis
    by (simp add: img well_formed_def pixel_at_def list_all_iff pixel_ok_def channel_ok_def)
qed

lemma render_result:
  assumes r: "bind_r (Image_new R (sz, sz) (0, 0, 0, 0)) (draw_all R shapes) = Inr img"
  shows "width img = nat sz \<and> height img = nat sz \<and> well_formed img
    \<and> list_all pixel_ok (data img) \<and> drawn_on_transparent R shapes img"
proof -
  from r obtain img0 where new: "Image_new R (sz, sz) (0, 0, 0, 0) = Inr img0"
    and all: "draw_all R shapes img0 = Inr img"
    by (auto simp: bind_r_eq_Inr)
  note b = Image_new_blank [OF new]
  have d: "width img = width img0 \<and> height img = height img0 \<and> well_formed img
    \<and> list_all pixel_ok (data img)
    \<and> (\<forall>y < height img0. \<forall>x < width img0. pixel_at img x y
          = (if (int x, int y) \<in> set (covered R shapes) then (255, 255, 255, 255)
             else pixel_at img0 x y))"
    using all b by (intro draw_all_result) simp_all
  show ?thesis
    using b d by (simp add: drawn_on_transparent_def)
qed

lemma render_total:
  assumes "0 \<le> sz" "creates R (sz, sz)" "\<forall>s \<in> set shapes. drawable R s"
  shows "\<exists>img. bind_r (Image_new R (sz, sz) (0, 0, 0, 0)) (draw_all R shapes) = Inr img"
  using assms draw_all_total [of shapes R] by (simp add: Image_new_def creates_def)

lemma render_returns_iff:
  "(\<exists>img. bind_r (Image_new R (sz, sz) (0, 0, 0, 0)) (draw_all R shapes) = Inr img)
    \<longleftrightarrow> 0 \<le> sz \<and> creates R (sz, sz) \<and> (\<forall>s \<in> set shapes. drawable R s)"
proof
  assume "\<exists>img. bind_r (Image_new R (sz, sz) (0, 0, 0, 0)) (draw_all R shapes) = Inr img"
  then obtain img img0 where new: "Image_new R (sz, sz) (0, 0, 0, 0) = Inr img0"
    and all: "draw_all R shapes img0 = Inr img"
    by (auto simp: bind_r_eq_Inr)
  have "0 \<le> sz \<and> creates R (sz, sz)"
    using new by (auto simp: Image_new_def creates_def split: if_splits option.splits)
  then show "0 \<le> sz \<and> creates R (sz, sz) \<and> (\<forall>s \<in> set shapes. drawable R s)"
    using draw_all_drawable [OF all] by simp
next
  assume "0 \<le> sz \<and> creates R (sz, sz) \<and> (\<forall>s \<in> set shapes. drawable R s)"
  then show "\<exists>img. bind_r (Image_new R (sz, sz) (0, 0, 0, 0)) (draw_all R shapes) = Inr img"
    using render_total by blast
qed

lemma draw_all_1:
  "draw_all R [a] = (\<lambda>img. draw_shape R a (255, 255, 255, 255) img)"
  by (simp add: fun_eq_iff draw_all_Cons bind_r_def split: sum.splits)

lemma draw_all_2:
  "draw_all R [a, b] = (\<lambda>img. bind_r (draw_shape R a (255, 255, 255, 255) img) (\<lambda>img.
     draw_shape R b (255, 255, 255, 255) img))"
  by (simp add: fun_eq_iff draw_all_Cons [of R a] draw_all_1)

lemma draw_all_3:
  "draw_all R [a, b, c] = (\<lambda>img. bind_r (draw_shape R a (255, 255, 255, 255) img) (\<lambda>img.
     bind_r (draw_shape R b (255, 255, 255, 255) img) (\<lambda>img.
     draw_shape R c (255, 255, 255, 255) img)))"
  by (simp add: fun_eq_iff draw_all_Cons [of R a] draw_all_2)

lemma draw_all_4:
  "draw_all R [a, b, c, d] = (\<lambda>img. bind_r (draw_shape R a (255, 255, 255, 255) img) (\<lambda>img.
     bind_r (draw_shape R b (255, 255, 255, 255) img) (\<lambda>img.
     bind_r (draw_shape R c (255, 255, 255, 255) img) (\<lambda>img.
     draw_shape R d (255, 255, 255, 255) img))))"
  by (simp add: fun_eq_iff draw_all_Cons [of R a] draw_all_3)

lemma catalog_renderer:
  assumes "(render, shapes) \<in> set catalog"
  shows "render R sz = bind_r (Image_new R (sz, sz) (0, 0, 0, 0)) (draw_all R (shapes sz))"
proof -
  from assms consider
      "render = render_chevron_left" "shapes = snd (catalog ! 0)"
    | "render = render_chevron_right" "shapes = snd (catalog ! 1)"
    | "render = render_rotate_cw" "shapes = snd (catalog ! 2)"
    | "render = render_rotate_ccw" "shapes = snd (catalog ! 3)"
    | "render = render_zoom_in" "shapes = snd (catalog ! 4)"
    | "render = render_zoom_out" "shapes = snd (catalog ! 5)"
    | "render = render_fit" "shapes = snd (catalog ! 6)"
    | "render = render_fullscreen" "shapes = snd (catalog ! 7)"
    by (auto simp: catalog_def)
  then show ?thesis
  proof cases
    case 1
    then show ?thesis by (simp add: catalog_def render_chevron_left_def Let_def draw_all_1 draw_all_2 draw_all_3 draw_all_4)
  next
    case 2
    then show ?thesis by (simp add: catalog_def render_chevron_right_def Let_def draw_all_1 draw_all_2 draw_all_3 draw_all_4)
  next
    case 3
    then show ?thesis by (simp add: catalog_def render_rotate_cw_def Let_def draw_all_1 draw_all_2 draw_all_3 draw_all_4)
  next
    case 4
    then show ?thesis by (simp add: catalog_def render_rotate_ccw_def Let_def draw_all_1 draw_all_2 draw_all_3 draw_all_4)
  next
    case 5
    then show ?thesis by (simp add: catalog_def render_zoom_in_def Let_def draw_all_1 draw_all_2 draw_all_3 draw_all_4)
  next
    case 6
    then show ?thesis by (simp add: catalog_def render_zoom_out_def Let_def draw_all_1 draw_all_2 draw_all_3 draw_all_4)
  next
    case 7
    then show ?thesis by (simp add: catalog_def render_fit_def Let_def draw_all_1 draw_all_2 draw_all_3 draw_all_4)
  next
    case 8
    then show ?thesis by (simp add: catalog_def render_fullscreen_def Let_def draw_all_1 draw_all_2 draw_all_3 draw_all_4)
  qed
qed

lemma catalog_members:
  "(render_chevron_left, snd (catalog ! 0)) \<in> set catalog"
  "(render_chevron_right, snd (catalog ! 1)) \<in> set catalog"
  "(render_rotate_cw, snd (catalog ! 2)) \<in> set catalog"
  "(render_rotate_ccw, snd (catalog ! 3)) \<in> set catalog"
  "(render_zoom_in, snd (catalog ! 4)) \<in> set catalog"
  "(render_zoom_out, snd (catalog ! 5)) \<in> set catalog"
  "(render_fit, snd (catalog ! 6)) \<in> set catalog"
  "(render_fullscreen, snd (catalog ! 7)) \<in> set catalog"
  by (simp_all add: catalog_def)

lemma boxes_in_order_iff:
  "(\<forall>(render, shapes) \<in> set catalog. \<forall>s \<in> set (shapes sz). shape_accepted s) \<longleftrightarrow> 9 \<le> sz"
  by (auto simp: catalog_def)

lemma transparent_literal: "pixel_literal (0, 0, 0, 0) = ''0x00000000''"
  by (simp add: pixel_literal_def pack_pixel_def format_08X_def zero_pad_def replicate_num
      hex_digits.simps digit_char_def)

text \<open>
  C6, as the specification states it, fails: not every positive dimension gives a surface.
  At the dimension 8 the box of the rectangle that \<open>render_fit\<close> draws is \<open>[4, 4, 3, 3]\<close>, and
  at the dimension 7 the box of the arc that the two rotation renderers draw is
  \<open>[4, 4, 3, 3]\<close>: the drawing library refuses the box and the renderer raises. At the
  dimension \<open>2^31\<close> a library that cannot represent the size raises in \<open>Image.new\<close>.
\<close>

theorem small_dimension_counterexample:
  "(0::int) < 8 \<and> render_fit two_dots 8 = Inl ValueError
   \<and> (0::int) < 7 \<and> render_rotate_cw two_dots 7 = Inl ValueError
   \<and> render_rotate_ccw two_dots 7 = Inl ValueError
   \<and> (0::int) < 2 ^ 31 \<and> render_chevron_left two_dots (2 ^ 31) = Inl OverflowError"
  by (simp add: render_fit_def render_rotate_cw_def render_rotate_ccw_def render_chevron_left_def
      Image_new_def draw_shape_def two_dots_def size_limit_def)

text \<open>
  C6, amended. For every renderer of the catalog and every dimension \<open>S\<close> at which it
  returns a surface, the surface has exactly \<open>S * S\<close> pixels, every channel of every pixel
  lies in \<open>[0, 255]\<close>, and every pixel that no drawing call covers is \<open>(0, 0, 0, 0)\<close>,
  which the emitter writes as \<open>0x00000000\<close>. The renderer returns a surface exactly when
  \<open>S\<close> is not negative, the library creates the image of \<open>S\<close> by \<open>S\<close> pixels, the box of
  every drawing call is in order and the library raises on none of them; the boxes of all
  eight renderers are in order exactly when \<open>S\<close> is at least 9.
\<close>

theorem rendered_surface:
  assumes "(render, shapes) \<in> set catalog"
  shows "((\<exists>img. render L sz = Inr img)
        \<longleftrightarrow> 0 \<le> sz \<and> creates L (sz, sz) \<and> (\<forall>s \<in> set (shapes sz). drawable L s))
    \<and> (\<forall>img. render L sz = Inr img \<longrightarrow>
          width img = nat sz \<and> height img = nat sz \<and> length (data img) = nat sz * nat sz
          \<and> list_all pixel_ok (data img) \<and> drawn_on_transparent L (shapes sz) img)
    \<and> ((\<forall>(r, ss) \<in> set catalog. \<forall>s \<in> set (ss sz). shape_accepted s) \<longleftrightarrow> 9 \<le> sz)
    \<and> pixel_literal (0, 0, 0, 0) = ''0x00000000''"
proof (intro conjI impI allI)
  show "(\<exists>img. render L sz = Inr img)
        \<longleftrightarrow> 0 \<le> sz \<and> creates L (sz, sz) \<and> (\<forall>s \<in> set (shapes sz). drawable L s)"
    using render_returns_iff [of L sz "shapes sz"] by (simp add: catalog_renderer [OF assms])
next
  fix img
  assume "render L sz = Inr img"
  then have r: "bind_r (Image_new L (sz, sz) (0, 0, 0, 0)) (draw_all L (shapes sz)) = Inr img"
    using assms by (simp add: catalog_renderer)
  note res = render_result [OF r]
  show "width img = nat sz" "height img = nat sz" "list_all pixel_ok (data img)"
    "drawn_on_transparent L (shapes sz) img"
    using res by simp_all
  show "length (data img) = nat sz * nat sz"
    using res by (simp add: well_formed_def)
next
  show "(\<forall>(r, ss) \<in> set catalog. \<forall>s \<in> set (ss sz). shape_accepted s) \<longleftrightarrow> 9 \<le> sz"
    by (rule boxes_in_order_iff)
next
  show "pixel_literal (0, 0, 0, 0) = ''0x00000000''"
    by (rule transparent_literal)
qed

theorem rendered_surface_witness:
  "(render_fit, snd (catalog ! 6)) \<in> set catalog
   \<and> (\<exists>img. render_fit two_dots 9 = Inr img \<and> width img = 9 \<and> height img = 9
         \<and> length (data img) = 81 \<and> list_all pixel_ok (data img)
         \<and> drawn_on_transparent two_dots (snd (catalog ! 6) 9) img)
   \<and> (render_zoom_in, snd (catalog ! 4)) \<in> set catalog
   \<and> render_zoom_in two_dots 2
       = Inr \<lparr>width = 2, height = 2,
              data = [(255, 255, 255, 255), (0, 0, 0, 0), (0, 0, 0, 0), (255, 255, 255, 255)]\<rparr>
   \<and> drawn_on_transparent two_dots (snd (catalog ! 4) 2)
       \<lparr>width = 2, height = 2,
        data = [(255, 255, 255, 255), (0, 0, 0, 0), (0, 0, 0, 0), (255, 255, 255, 255)]\<rparr>"
proof -
  have m: "(render_fit, snd (catalog ! 6)) \<in> set catalog"
    and n: "(render_zoom_in, snd (catalog ! 4)) \<in> set catalog"
    by (simp_all add: catalog_def)
  note fit = rendered_surface [OF m, of two_dots 9]
  have "0 \<le> (9::int) \<and> creates two_dots (9, 9)
      \<and> (\<forall>s \<in> set (snd (catalog ! 6) 9). drawable two_dots s)"
    by (simp add: catalog_def drawable_def two_dots_def creates_def size_limit_def)
  then obtain img where img: "render_fit two_dots 9 = Inr img"
    using fit by blast
  then have a: "\<exists>img. render_fit two_dots 9 = Inr img \<and> width img = 9 \<and> height img = 9
         \<and> length (data img) = 81 \<and> list_all pixel_ok (data img)
         \<and> drawn_on_transparent two_dots (snd (catalog ! 6) 9) img"
    using fit by auto
  have v: "render_zoom_in two_dots 2
       = Inr \<lparr>width = 2, height = 2,
              data = [(255, 255, 255, 255), (0, 0, 0, 0), (0, 0, 0, 0), (255, 255, 255, 255)]\<rparr>"
    by code_simp
  have b: "drawn_on_transparent two_dots (snd (catalog ! 4) 2)
       \<lparr>width = 2, height = 2,
        data = [(255, 255, 255, 255), (0, 0, 0, 0), (0, 0, 0, 0), (255, 255, 255, 255)]\<rparr>"
    using v rendered_surface [OF n, of two_dots 2] by simp
  show ?thesis
    using m a n v b by (intro conjI)
qed

section \<open>The document and the run\<close>

lemma catalog_well_formed:
  assumes "(render, shapes) \<in> set catalog" "render R sz = Inr img"
  shows "well_formed img"
proof -
  have "bind_r (Image_new R (sz, sz) (0, 0, 0, 0)) (draw_all R (shapes sz)) = Inr img"
    using assms by (simp add: catalog_renderer)
  then show ?thesis using render_result by blast
qed

lemma render_icons_result:
  assumes "render_icons R sz = Inr icons"
  shows "map fst icons =
      [''toolbar_icon_prev'', ''toolbar_icon_next'', ''toolbar_icon_rotate_cw'',
       ''toolbar_icon_rotate_ccw'', ''toolbar_icon_zoom_in'', ''toolbar_icon_zoom_out'',
       ''toolbar_icon_fit'', ''toolbar_icon_fullscreen'']
    \<and> list_all (\<lambda>(name, img). well_formed img) icons"
proof -
  from assms obtain i0 i1 i2 i3 i4 i5 i6 i7 where
    r: "render_chevron_left R sz = Inr i0" "render_chevron_right R sz = Inr i1"
       "render_rotate_cw R sz = Inr i2" "render_rotate_ccw R sz = Inr i3"
       "render_zoom_in R sz = Inr i4" "render_zoom_out R sz = Inr i5"
       "render_fit R sz = Inr i6" "render_fullscreen R sz = Inr i7"
    and icons: "icons = [(''toolbar_icon_prev'', i0), (''toolbar_icon_next'', i1),
       (''toolbar_icon_rotate_cw'', i2), (''toolbar_icon_rotate_ccw'', i3),
       (''toolbar_icon_zoom_in'', i4), (''toolbar_icon_zoom_out'', i5),
       (''toolbar_icon_fit'', i6), (''toolbar_icon_fullscreen'', i7)]"
    unfolding render_icons_def bind_r_eq_Inr by auto
  have "well_formed i0" "well_formed i1" "well_formed i2" "well_formed i3"
    "well_formed i4" "well_formed i5" "well_formed i6" "well_formed i7"
    using r catalog_members by (blast intro: catalog_well_formed)+
  then show ?thesis by (simp add: icons)
qed

lemma render_icons_total:
  assumes "0 \<le> sz" "creates R (sz, sz)"
    and "\<forall>(render, shapes) \<in> set catalog. \<forall>s \<in> set (shapes sz). drawable R s"
  shows "\<exists>icons. render_icons R sz = Inr icons"
proof -
  have "\<And>render shapes. (render, shapes) \<in> set catalog \<Longrightarrow> \<exists>img. render R sz = Inr img"
  proof -
    fix render shapes
    assume m: "(render, shapes) \<in> set catalog"
    then have "\<forall>s \<in> set (shapes sz). drawable R s" using assms(3) by auto
    then show "\<exists>img. render R sz = Inr img"
      using assms(1,2) render_total [of sz R "shapes sz"] by (simp add: catalog_renderer [OF m])
  qed
  then obtain i0 i1 i2 i3 i4 i5 i6 i7 where
    "render_chevron_left R sz = Inr i0" "render_chevron_right R sz = Inr i1"
    "render_rotate_cw R sz = Inr i2" "render_rotate_ccw R sz = Inr i3"
    "render_zoom_in R sz = Inr i4" "render_zoom_out R sz = Inr i5"
    "render_fit R sz = Inr i6" "render_fullscreen R sz = Inr i7"
    using catalog_members by metis
  then show ?thesis by (simp add: render_icons_def)
qed

lemma arrays_loop:
  assumes "list_all (\<lambda>(name, img). well_formed img) icons"
  shows "for_each (\<lambda>(name, img) output.
        bind_r (image_to_c_array img name) (\<lambda>text. Inr ((output @ [text]) @ [''''])))
      icons out0
    = Inr (out0 @ concat (map (\<lambda>(name, img). [array_text img name, '''']) icons))"
proof -
  have body: "\<And>x s. x \<in> set icons \<Longrightarrow>
      (case x of (name, img) \<Rightarrow> \<lambda>output.
         bind_r (image_to_c_array img name) (\<lambda>text. Inr ((output @ [text]) @ ['''']))) s
      = Inr (s @ (case x of (name, img) \<Rightarrow> [array_text img name, '''']))"
    using assms by (auto simp: list_all_iff image_to_c_array_closed)
  have "for_each (\<lambda>(name, img) output.
        bind_r (image_to_c_array img name) (\<lambda>text. Inr ((output @ [text]) @ [''''])))
      icons out0
    = Inr (fold (\<lambda>x s. s @ (case x of (name, img) \<Rightarrow> [array_text img name, ''''])) icons out0)"
    by (rule for_each_total) (rule body)
  then show ?thesis by (simp only: fold_append_map)
qed

lemma table_loop:
  "fold (\<lambda>(name, _) output. output @ [''    '' @ name @ '','']) icons out0
    = out0 @ map (\<lambda>(name, img). ''    '' @ name @ '','') icons"
  by (induction icons arbitrary: out0) (simp_all add: case_prod_unfold)

lemma main_output_closed:
  assumes "list_all (\<lambda>(name, img). well_formed img) icons"
  shows "main_output sz icons = Inr (document_layout sz icons toolbar_index_constants)"
  apply (simp only: main_output_def Let_def arrays_loop [OF assms] bind_r_Inr table_loop)
  apply (simp add: document_layout_def toolbar_index_constants_def)
  done

lemma print_header_closed:
  assumes "list_all (\<lambda>(name, img). well_formed img) icons"
  shows "print_header sz icons out =
    (out @ str_join newline (document_layout sz icons toolbar_index_constants) @ newline, Inr ())"
  by (simp add: print_header_def main_output_closed [OF assms] py_print_def)

lemma builtin_index_constants:
  assumes "render_icons R sz = Inr icons"
  shows "spec_index_constants icons = toolbar_index_constants"
proof -
  have n: "map fst icons =
      [''toolbar_icon_prev'', ''toolbar_icon_next'', ''toolbar_icon_rotate_cw'',
       ''toolbar_icon_rotate_ccw'', ''toolbar_icon_zoom_in'', ''toolbar_icon_zoom_out'',
       ''toolbar_icon_fit'', ''toolbar_icon_fullscreen'']"
    using render_icons_result [OF assms] by simp
  then have len: "length icons = 8"
    using length_map [of fst icons] by simp
  have "spec_index_constants icons
      = map (\<lambda>k. index_constant (map fst icons ! k) k) [0..<length icons]"
    by (simp add: spec_index_constants_def)
  also have "\<dots> = toolbar_index_constants"
    unfolding n len
    by (simp add: upt_rec index_constant_def to_upper_def toolbar_index_constants_def
        str_int_def dec_digits.simps digit_char_def)
  finally show ?thesis .
qed


lemma import_PIL_closed:
  "import_PIL env (fs, []) =
     (if PIL_importable fs then ((fs, []), Inr ())
      else if pip_installs_pil env then ((fs(PIL_package \<mapsto> []), fallback_stdout env), Inr ())
      else ((fs, fallback_stdout env), Inl ImportError))"
  by (simp add: import_PIL_def os_system_pip_def py_print_def PIL_importable_def
      fallback_stdout_def)

lemma script_closed:
  "script g env R =
     (if PIL_importable (files_on_disk env) then main g R []
      else if pip_installs_pil env then main g R (fallback_stdout env)
      else (fallback_stdout env, Inl ImportError))"
  by (simp add: script_def import_PIL_closed)

lemma two_dots_icons: "\<exists>icons. render_icons two_dots (ICON_SIZE module_globals) = Inr icons"
proof (rule render_icons_total)
  show "0 \<le> ICON_SIZE module_globals"
    by (simp add: module_globals_def)
  show "creates two_dots (ICON_SIZE module_globals, ICON_SIZE module_globals)"
    by (simp add: module_globals_def two_dots_def creates_def size_limit_def)
  show "\<forall>(render, shapes) \<in> set catalog.
      \<forall>s \<in> set (shapes (ICON_SIZE module_globals)). drawable two_dots s"
    by (simp add: catalog_def drawable_def two_dots_def module_globals_def)
qed

text \<open>
  C2. For every icon of the emitted document, the index constant emitted for it (named by
  the icon's identifier in upper case) equals the icon's zero-based position in the icons
  sequence, and the lookup table has exactly one entry per icon, in the order of the icons
  sequence.
\<close>

theorem index_table_consistent:
  assumes "render_icons R sz = Inr icons"
  shows "\<exists>before. main_output sz icons =
      Inr (before
           @ [''static const uint32_t* toolbar_icons[] = {'']
           @ map (\<lambda>(name, img). ''    '' @ name @ '','') icons
           @ [''};'', '''']
           @ map (\<lambda>k. index_constant (fst (icons ! k)) k) [0..<length icons]
           @ ['''', ''#endif /* TOOLBAR_ICONS_H */''])"
proof -
  have wf: "list_all (\<lambda>(name, img). well_formed img) icons"
    using render_icons_result [OF assms] by simp
  have "toolbar_index_constants = map (\<lambda>k. index_constant (fst (icons ! k)) k) [0..<length icons]"
    using builtin_index_constants [OF assms] by (simp add: spec_index_constants_def)
  then show ?thesis
    unfolding main_output_closed [OF wf] document_layout_def by (intro exI) simp
qed

theorem index_table_consistent_witness:
  "\<exists>icons. render_icons two_dots 24 = Inr icons
     \<and> (\<exists>before. main_output 24 icons =
          Inr (before
               @ [''static const uint32_t* toolbar_icons[] = {'']
               @ map (\<lambda>(name, img). ''    '' @ name @ '','') icons
               @ [''};'', '''']
               @ map (\<lambda>k. index_constant (fst (icons ! k)) k) [0..<length icons]
               @ ['''', ''#endif /* TOOLBAR_ICONS_H */'']))
     \<and> index_constant (fst (icons ! 4)) 4 = ''#define TOOLBAR_ICON_ZOOM_IN 4''"
proof -
  obtain icons where r: "render_icons two_dots 24 = Inr icons"
    using two_dots_icons by (auto simp: module_globals_def)
  have "map fst icons ! 4 = ''toolbar_icon_zoom_in''" and "4 < length (map fst icons)"
    using render_icons_result [OF r] by simp_all
  then have "fst (icons ! 4) = ''toolbar_icon_zoom_in''"
    by simp
  then have c: "index_constant (fst (icons ! 4)) 4 = ''#define TOOLBAR_ICON_ZOOM_IN 4''"
    by (simp add: index_constant_def to_upper_def str_int_def dec_digits.simps digit_char_def)
  show ?thesis
    using r index_table_consistent [OF r] c by blast
qed

text \<open>
  C3. For the icon set that the program renders, at any dimension \<open>S\<close>, the emitted text
  document consists of, in this order: (a) the comment banner, (b) the include-guard
  opening, (c) the include of \<open>types.h\<close>, (d) the dimension constant, (e) one array
  declaration per icon in icon-set order, (f) the lookup table with one entry per icon in
  the same order, (g) one index constant per icon, the icon at position \<open>k\<close> with index
  \<open>k\<close>, (h) the include-guard closing; and this document, with a line break after its
  last line, is what the program prints.
\<close>

theorem document_sections:
  assumes "render_icons L sz = Inr icons"
  shows "main_output sz icons = Inr (spec_document sz icons)
    \<and> print_header sz icons out
        = (out @ str_join newline (spec_document sz icons) @ newline, Inr ())"
proof -
  have wf: "list_all (\<lambda>(name, img). well_formed img) icons"
    using render_icons_result [OF assms] by simp
  show ?thesis
    using builtin_index_constants [OF assms]
    by (simp add: main_output_closed [OF wf] print_header_closed [OF wf] spec_document_def)
qed

theorem document_sections_witness:
  "\<exists>icons. render_icons two_dots 24 = Inr icons
     \<and> main_output 24 icons = Inr (spec_document 24 icons)
     \<and> print_header 24 icons [] = (str_join newline (spec_document 24 icons) @ newline, Inr ())"
proof -
  obtain icons where r: "render_icons two_dots 24 = Inr icons"
    using two_dots_icons by (auto simp: module_globals_def)
  show ?thesis
    using r document_sections [OF r, of "[]"] by auto
qed




lemma PIL_package_not_png: "\<not> png_file PIL_package"
  by (simp add: png_file_def PIL_package_def)







text \<open>
  C10. The generated document is independent of the module-level \<open>ICONS\<close> list of PNG file
  names and of the PNG files on disk: the program reads the disk only to import the
  drawing library, so two runs that differ only in the \<open>ICONS\<close> list or in files whose
  names end in \<open>.png\<close> write the same text to the standard output and end alike.
\<close>

theorem output_independent_of_ICONS_and_files:
  assumes "\<forall>path. \<not> png_file path \<longrightarrow> fs path = files_on_disk env path"
  shows "script (g\<lparr>ICONS := names\<rparr>) (env\<lparr>files_on_disk := fs\<rparr>) L = script g env L"
proof -
  have "fs PIL_package = files_on_disk env PIL_package"
    using assms PIL_package_not_png by blast
  then have "PIL_importable fs = PIL_importable (files_on_disk env)"
    by (simp add: PIL_importable_def)
  moreover have "main (g\<lparr>ICONS := names\<rparr>) L out = main g L out" for out
    by (simp add: main_def)
  moreover have "fallback_stdout (env\<lparr>files_on_disk := fs\<rparr>) = fallback_stdout env"
    by (simp add: fallback_stdout_def)
  ultimately show ?thesis
    by (simp add: script_closed)
qed

theorem output_independent_of_ICONS_and_files_witness:
  "png_file ''prev.png''
   \<and> script (module_globals\<lparr>ICONS := [(''icon_prev'', ''missing.png'')]\<rparr>)
       (env_with_PIL\<lparr>files_on_disk := (files_on_disk env_with_PIL)(''prev.png'' \<mapsto> ''89504E47'')\<rparr>)
       two_dots
     = script module_globals env_with_PIL two_dots
   \<and> script (module_globals\<lparr>ICONS := []\<rparr>)
       (env_without_PIL\<lparr>files_on_disk := (files_on_disk env_without_PIL)(''prev.png'' \<mapsto> '''')\<rparr>)
       two_dots
     = script module_globals env_without_PIL two_dots"
proof -
  have png: "png_file ''prev.png''"
    by (simp add: png_file_def)
  have h: "\<forall>path. \<not> png_file path \<longrightarrow> (files(''prev.png'' \<mapsto> bytes)) path = files path"
    for files :: files and bytes
    using png by auto
  have a: "script (module_globals\<lparr>ICONS := [(''icon_prev'', ''missing.png'')]\<rparr>)
       (env_with_PIL\<lparr>files_on_disk := (files_on_disk env_with_PIL)(''prev.png'' \<mapsto> ''89504E47'')\<rparr>)
       two_dots
     = script module_globals env_with_PIL two_dots"
    by (rule output_independent_of_ICONS_and_files [OF h])
  have b: "script (module_globals\<lparr>ICONS := []\<rparr>)
       (env_without_PIL\<lparr>files_on_disk := (files_on_disk env_without_PIL)(''prev.png'' \<mapsto> '''')\<rparr>)
       two_dots
     = script module_globals env_without_PIL two_dots"
    by (rule output_independent_of_ICONS_and_files [OF h])
  show ?thesis
    using png a b by (intro conjI)
qed

end
